theory Spec2Isabelle
  imports Main
begin

section \<open>Theme settings resolution and watch entry points of spicetify-cli\<close>

text \<open>
  A shallow embedding of \<^verbatim>\<open>InitSetting\<close>, \<^verbatim>\<open>getThemeFolder\<close> and
  \<^verbatim>\<open>getSpicetifyFolder\<close> (package \<^verbatim>\<open>cmd\<close>) and of \<^verbatim>\<open>Watch\<close>,
  \<^verbatim>\<open>WatchExtensions\<close> and \<^verbatim>\<open>startDebugger\<close> (\<^verbatim>\<open>cmd/watch.go\<close>), with the
  collaborators they rely on (the INI loader, the watcher, the reload client) modelled
  beside them.
  The package-level variables the functions assign are a record that is passed in and
  returned; what the functions read from outside the process (the config store, the
  file system, the environment) is a second record. Console output and calls to
  collaborators are appended to a trace, and \<^verbatim>\<open>os.Exit\<close> is a result value.
\<close>

subsection \<open>Strings and paths\<close>

text \<open>
  \<^verbatim>\<open>strings.ToLower\<close> belongs to the Go runtime and maps every letter of Unicode that
  has a lower case. It is not modelled: the functions below take it as a parameter (the
  field \<open>ToLower\<close> of the world), and the theorems assume nothing of it. On text made of
  ASCII characters only it is the function \<open>asciiToLower\<close>, which the example worlds
  (all of them ASCII) use for it.
\<close>

definition lower_char :: "char \<Rightarrow> char" where
  "lower_char c =
     (case map_of (zip ''ABCDEFGHIJKLMNOPQRSTUVWXYZ'' ''abcdefghijklmnopqrstuvwxyz'') c of
        Some d \<Rightarrow> d
      | None \<Rightarrow> c)"

definition asciiToLower :: "string \<Rightarrow> string" where
  "asciiToLower s = map lower_char s"

text \<open>
  \<^verbatim>\<open>filepath.Join\<close>: empty elements are ignored and the others are joined with the
  separator. The final \<^verbatim>\<open>Clean\<close> of the Go library is not modelled: path elements are
  taken to be clean already.
\<close>

fun join_with :: "string list \<Rightarrow> string" where
  "join_with [] = []"
| "join_with [e] = e"
| "join_with (e # es) = e @ ''/'' @ join_with es"

definition Join :: "string list \<Rightarrow> string" where
  "Join elems = join_with (filter (\<lambda>e. e \<noteq> []) elems)"

subsection \<open>INI data\<close>

text \<open>
  A section of an INI file: its name and its keys in order. A loaded file is the list
  of its sections in the order \<^verbatim>\<open>File.Sections()\<close> returns them.
\<close>

record Section =
  name :: string
  keys :: "(string \<times> string) list"

type_synonym File = "Section list"

text \<open>\<^verbatim>\<open>section.Key(k).String()\<close>: the value of the key, the empty string when absent.\<close>

definition KeyString :: "(string \<times> string) list \<Rightarrow> string \<Rightarrow> string" where
  "KeyString sec k = (case map_of sec k of None \<Rightarrow> [] | Some v \<Rightarrow> v)"

text \<open>
  \<^verbatim>\<open>Key.MustBool(default)\<close>: the value parsed as a boolean, the default when it does
  not parse. The accepted spellings are those of the INI library.
\<close>

definition MustBool :: "bool \<Rightarrow> string \<Rightarrow> bool" where
  "MustBool dflt v =
     (if v \<in> set [''1'', ''t'', ''T'', ''true'', ''TRUE'', ''True'', ''YES'', ''yes'', ''Yes'',
                   ''y'', ''ON'', ''on'', ''On''] then True
      else if v \<in> set [''0'', ''f'', ''F'', ''false'', ''FALSE'', ''False'', ''NO'', ''no'', ''No'',
                        ''n'', ''OFF'', ''off'', ''Off''] then False
      else dflt)"

text \<open>
  The text of an INI file, as the parser of the library reads it: the keys written
  before the first section header, and then the sections in file order, each with the
  name in its header and its keys, all as written.
\<close>

record IniText =
  preamble :: "(string \<times> string) list"
  written :: "Section list"

text \<open>
  Modelled from the spec: the INI library behind \<^verbatim>\<open>ini.InsensitiveLoad\<close>,
  \<^verbatim>\<open>File.Sections\<close> and \<^verbatim>\<open>File.GetSection\<close> is not part of the sources. Section
  and key names are case-insensitive, and the order of the sections is significant.
  The details follow the library's loader in its insensitive mode, also where the spec
  reads the section list otherwise (it takes index 0 for a section of the file):

  \<^item> \<^verbatim>\<open>Section.NewKey\<close> lowers the key name; a key already in the section keeps its
    place and takes the new value, a new key goes to the end;
  \<^item> \<^verbatim>\<open>File.NewSection\<close> lowers the section name, unless it is spelled exactly
    \<^verbatim>\<open>DEFAULT\<close>, and returns the section already registered under that name, if any,
    so that sections equal up to case are one section; a new section goes to the end of
    the list;
  \<^item> the parser first registers the default section, under the lowered name
    \<^verbatim>\<open>DEFAULT\<close>, for the keys written before any header: it is always the section at
    index 0 of \<^verbatim>\<open>File.Sections()\<close>, and the sections written in the file follow;
  \<^item> an empty section name or key name makes the load fail;
  \<^item> \<^verbatim>\<open>File.GetSection\<close> takes the empty name for \<^verbatim>\<open>DEFAULT\<close>, lowers the name and
    returns the section registered under it, or an error.
\<close>

definition NewKey ::
  "(string \<Rightarrow> string) \<Rightarrow> (string \<times> string) list \<Rightarrow> string \<times> string \<Rightarrow> (string \<times> string) list" where
  "NewKey lower ks kv =
     (let k = lower (fst kv) in
      if k \<in> set (map fst ks) then map (\<lambda>p. if fst p = k then (k, snd kv) else p) ks
      else ks @ [(k, snd kv)])"

definition addKeys ::
  "(string \<Rightarrow> string) \<Rightarrow> (string \<times> string) list \<Rightarrow> (string \<times> string) list \<Rightarrow> (string \<times> string) list" where
  "addKeys lower ks kvs = foldl (NewKey lower) ks kvs"

definition sectionName :: "(string \<Rightarrow> string) \<Rightarrow> string \<Rightarrow> string" where
  "sectionName lower n = (if n \<noteq> ''DEFAULT'' then lower n else n)"

definition addSection :: "(string \<Rightarrow> string) \<Rightarrow> File \<Rightarrow> Section \<Rightarrow> File" where
  "addSection lower f s =
     (let n = sectionName lower (name s) in
      if n \<in> set (map name f) then
        map (\<lambda>x. if name x = n then x\<lparr>keys := addKeys lower (keys x) (keys s)\<rparr> else x) f
      else f @ [\<lparr>name = n, keys = addKeys lower [] (keys s)\<rparr>])"

text \<open>The name under which the parser registers the default section.\<close>

definition defaultName :: "(string \<Rightarrow> string) \<Rightarrow> string" where
  "defaultName lower = sectionName lower (lower ''DEFAULT'')"

definition parse :: "(string \<Rightarrow> string) \<Rightarrow> IniText \<Rightarrow> File" where
  "parse lower txt =
     foldl (addSection lower)
       [\<lparr>name = defaultName lower, keys = addKeys lower [] (preamble txt)\<rparr>]
       (written txt)"

definition accepted :: "IniText \<Rightarrow> bool" where
  "accepted txt =
     ([] \<notin> set (map fst (preamble txt))
      \<and> list_all (\<lambda>s. name s \<noteq> [] \<and> [] \<notin> set (map fst (keys s))) (written txt))"

definition Sections :: "File \<Rightarrow> Section list" where
  "Sections f = f"

definition GetSection :: "(string \<Rightarrow> string) \<Rightarrow> File \<Rightarrow> string \<Rightarrow> Section option" where
  "GetSection lower f n0 =
     (let n = (if length n0 = 0 then ''DEFAULT'' else n0);
          n = lower n
      in find (\<lambda>s. name s = n) f)"

subsection \<open>The world outside the process\<close>

text \<open>
  \<^verbatim>\<open>statOK\<close> lists the paths for which \<^verbatim>\<open>os.Stat\<close> returns no error;
  \<^verbatim>\<open>iniFiles\<close> gives the text of each INI file that can be read (a path without an
  entry fails to load), and \<^verbatim>\<open>ToLower\<close> is \<^verbatim>\<open>strings.ToLower\<close>.
  \<^verbatim>\<open>settingSection\<close> is the section \<^verbatim>\<open>Setting\<close> of the config store, and
  \<^verbatim>\<open>extNameList\<close> is the list \<^verbatim>\<open>featureSection.Key("extensions").Strings("|")\<close>.
  \<^verbatim>\<open>getExtensionPath\<close>, \<^verbatim>\<open>spotifystatus.Get(..).IsModdable()\<close> and
  \<^verbatim>\<open>utils.GetDebuggerPath()\<close> are collaborators whose answers are taken as given.
\<close>

record world =
  settingSection :: "(string \<times> string) list"
  statOK :: "string list"
  iniFiles :: "(string \<times> IniText) list"
  ToLower :: "string \<Rightarrow> string"
  userThemesFolder :: string
  executableDir :: string
  isModdable :: bool
  debuggerPath :: string
  getExtensionPath :: "string \<Rightarrow> string option"
  extNameList :: "string list"

definition Stat :: "world \<Rightarrow> string \<Rightarrow> bool" where
  "Stat w p = (p \<in> set (statOK w))"

definition InsensitiveLoad :: "world \<Rightarrow> string \<Rightarrow> File option" where
  "InsensitiveLoad w p =
     (case map_of (iniFiles w) p of
        None \<Rightarrow> None
      | Some txt \<Rightarrow> if accepted txt then Some (parse (ToLower w) txt) else None)"

subsection \<open>Process state and results\<close>

datatype effect =
    PrintError string
  | PrintInfo string
  | PrintSuccess string
  | ReloadDirective string
  | RestartSpotify string

record globals =
  themeFolder :: string
  colorCfg :: "File option"
  colorSection :: "Section option"
  injectCSS :: bool
  replaceColors :: bool
  overwriteAssets :: bool
  debuggerURL :: string
  autoReloadBound :: bool
  trace :: "effect list"

text \<open>The package-level variables at process start (Go's zero values).\<close>

definition initial :: globals where
  "initial = \<lparr>themeFolder = [], colorCfg = None, colorSection = None, injectCSS = False,
     replaceColors = False, overwriteAssets = False, debuggerURL = [],
     autoReloadBound = False, trace = []\<rparr>"

text \<open>
  A call either returns a value in a state, or ends the process with an exit status
  (\<^verbatim>\<open>os.Exit\<close>) in the state reached.
\<close>

datatype ('a, 's) outcome = Returns 'a 's | Exits nat 's

definition emit :: "effect \<Rightarrow> globals \<Rightarrow> globals" where
  "emit e g = g\<lparr>trace := trace g @ [e]\<rparr>"

subsection \<open>Resolving the theme folder and the settings\<close>

definition getThemeFolder :: "world \<Rightarrow> string \<Rightarrow> globals \<Rightarrow> (string, globals) outcome" where
  "getThemeFolder w themeName g =
     (let folder = Join [userThemesFolder w, themeName] in
      if Stat w folder then Returns folder g
      else
        let folder = Join [executableDir w, ''Themes'', themeName] in
        if Stat w folder then Returns folder g
        else Exits 1 (emit (PrintError (''Theme \"'' @ themeName @ ''\" not found'')) g))"

text \<open>The part of \<^verbatim>\<open>InitSetting\<close> after the three existence checks.\<close>

definition loadColors :: "world \<Rightarrow> globals \<Rightarrow> globals" where
  "loadColors w g0 =
     (let colorPath = Join [themeFolder g0, ''color.ini''] in
      if \<not> replaceColors g0 then g0
      else
        let g = g0\<lparr>colorCfg := InsensitiveLoad w colorPath\<rparr> in
        (case colorCfg g of
           None \<Rightarrow>
             (emit (PrintError (''Cannot open file '' @ colorPath)) g)\<lparr>replaceColors := False\<rparr>
         | Some cfg \<Rightarrow>
             (let sections = Sections cfg in
              if length sections < 2 then
                (emit (PrintError (''No section found in '' @ colorPath)) g)\<lparr>replaceColors := False\<rparr>
              else
                (let schemeName = KeyString (settingSection w) ''color_scheme'' in
                 if length schemeName = 0 then g\<lparr>colorSection := Some (sections ! 1)\<rparr>
                 else
                   (case GetSection (ToLower w) cfg schemeName of
                      None \<Rightarrow> g\<lparr>colorSection := Some (sections ! 1)\<rparr>
                    | Some schemeSection \<Rightarrow> g\<lparr>colorSection := Some schemeSection\<rparr>)))))"

definition InitSetting :: "world \<Rightarrow> globals \<Rightarrow> (unit, globals) outcome" where
  "InitSetting w g0 =
     (let g = g0\<lparr>replaceColors := MustBool False (KeyString (settingSection w) ''replace_colors''),
                 injectCSS := MustBool False (KeyString (settingSection w) ''inject_css''),
                 overwriteAssets := MustBool False (KeyString (settingSection w) ''overwrite_assets'')\<rparr>;
          themeName = KeyString (settingSection w) ''current_theme''
      in
      if length themeName = 0 then
        Returns () (g\<lparr>injectCSS := False, replaceColors := False, overwriteAssets := False\<rparr>)
      else
        case getThemeFolder w themeName g of
          Exits c g' \<Rightarrow> Exits c g'
        | Returns folder g \<Rightarrow>
            let g = g\<lparr>themeFolder := folder\<rparr>;
                colorPath = Join [themeFolder g, ''color.ini''];
                cssPath = Join [themeFolder g, ''user.css''];
                assetsPath = Join [themeFolder g, ''assets''];
                g = (if replaceColors g then g\<lparr>replaceColors := Stat w colorPath\<rparr> else g);
                g = (if injectCSS g then g\<lparr>injectCSS := Stat w cssPath\<rparr> else g);
                g = (if overwriteAssets g then g\<lparr>overwriteAssets := Stat w assetsPath\<rparr> else g)
            in Returns () (loadColors w g))"

text \<open>The five settings a resolution determines.\<close>

definition settings :: "globals \<Rightarrow> bool \<times> bool \<times> bool \<times> string \<times> Section option" where
  "settings g = (replaceColors g, injectCSS g, overwriteAssets g, themeFolder g, colorSection g)"

subsection \<open>The watch commands\<close>

definition isValidForWatching :: "world \<Rightarrow> globals \<Rightarrow> bool \<times> globals" where
  "isValidForWatching w g =
     (if \<not> isModdable w then
        (False, emit (PrintError
           ''You haven't applied. Run \"spicetify apply\" once before entering watch mode.'') g)
      else (True, g))"

text \<open>
  What the client answers while one reload is attempted: the address
  \<^verbatim>\<open>utils.GetDebuggerPath()\<close> finds at that moment, and whether the connection and the
  reload directive succeed.
\<close>

record attempt =
  endpoint :: string
  accepts :: bool

text \<open>
  Modelled from the spec: \<^verbatim>\<open>utils.SendReload\<close> is not part of the sources. It receives
  the address of \<^verbatim>\<open>debuggerURL\<close>; when no endpoint is held it runs the discovery again
  and stores what it finds (reload attempts re-run the discovery lazily), then it opens
  a short-lived connection, issues one reload directive and reports success or failure.
  The result is the endpoint held afterwards and whether an error is returned.
\<close>

definition SendReload :: "attempt \<Rightarrow> string \<Rightarrow> string \<times> bool" where
  "SendReload a url0 =
     (let url = (if length url0 = 0 then endpoint a else url0) in
      (url, length url = 0 \<or> \<not> accepts a))"

text \<open>
  \<^verbatim>\<open>startDebugger\<close> stores the debugger address, asks for a restart of the client
  when there is none, and binds \<^verbatim>\<open>autoReloadFunc\<close>. The bound closure is
  \<open>autoReloadFunc\<close> below; its first argument is what the client answers during this
  call. The effect \<open>ReloadDirective\<close> records the call of \<^verbatim>\<open>utils.SendReload\<close> with the
  endpoint it used.
\<close>

definition startDebugger :: "world \<Rightarrow> globals \<Rightarrow> globals" where
  "startDebugger w g0 =
     (let g = g0\<lparr>debuggerURL := debuggerPath w\<rparr>;
          g = (if length (debuggerURL g) = 0
               then emit (RestartSpotify ''--remote-debugging-port=9222'') g else g)
      in g\<lparr>autoReloadBound := True\<rparr>)"

definition autoReloadFunc :: "attempt \<Rightarrow> globals \<Rightarrow> (unit, globals) outcome" where
  "autoReloadFunc a g0 =
     (case SendReload a (debuggerURL g0) of
        (url, failed) \<Rightarrow>
          (let g = emit (ReloadDirective url) (g0\<lparr>debuggerURL := url\<rparr>) in
           if failed then
             Returns () (emit (PrintInfo ''Close Spotify and run \"spicetify watch -e -l\" again.'')
                          (emit (PrintError ''Could not Reload Spotify'') g))
           else Returns () (emit (PrintSuccess ''Spotify reloaded'') g)))"

text \<open>
  What a watch command hands to the watcher: the files of the flat watch and, for
  \<^verbatim>\<open>Watch\<close>, the directory of the recursive watch started beside it. A command that
  returns a session has entered \<^verbatim>\<open>utils.Watch\<close>.
\<close>

record session =
  fileList :: "string list"
  assetWatch :: "string option"

definition Watch :: "world \<Rightarrow> bool \<Rightarrow> globals \<Rightarrow> (session, globals) outcome" where
  "Watch w liveUpdate g0 =
     (case isValidForWatching w g0 of
        (False, g) \<Rightarrow> Exits 1 g
      | (True, g) \<Rightarrow>
          (case InitSetting w g of
             Exits c g \<Rightarrow> Exits c g
           | Returns _ g \<Rightarrow>
               (let g = (if liveUpdate then startDebugger w g else g) in
                if length (themeFolder g) = 0 then
                  Exits 1 (emit (PrintError
                    ''Config \"current_theme\" is blank. No theme asset to watch.'') g)
                else
                  (let colorPath = Join [themeFolder g, ''color.ini''];
                       cssPath = Join [themeFolder g, ''user.css''];
                       fileList = [];
                       fileList = (if replaceColors g then fileList @ [colorPath] else fileList);
                       fileList = (if injectCSS g then fileList @ [cssPath] else fileList)
                   in Returns \<lparr>fileList = fileList,
                                assetWatch = (if overwriteAssets g
                                              then Some (Join [themeFolder g, ''assets''])
                                              else None)\<rparr> g))))"

text \<open>The loop of \<^verbatim>\<open>WatchExtensions\<close> over the configured extension names.\<close>

fun resolveExtensions ::
  "world \<Rightarrow> string list \<Rightarrow> string list \<Rightarrow> globals \<Rightarrow> string list \<times> globals" where
  "resolveExtensions w [] extPathList g = (extPathList, g)"
| "resolveExtensions w (v # vs) extPathList g =
     (case getExtensionPath w v of
        None \<Rightarrow>
          resolveExtensions w vs extPathList
            (emit (PrintError (''Extension \"'' @ v @ ''\" not found.'')) g)
      | Some extPath \<Rightarrow> resolveExtensions w vs (extPathList @ [extPath]) g)"

definition WatchExtensions :: "world \<Rightarrow> bool \<Rightarrow> globals \<Rightarrow> (session, globals) outcome" where
  "WatchExtensions w liveUpdate g0 =
     (case isValidForWatching w g0 of
        (False, g) \<Rightarrow> Exits 1 g
      | (True, g) \<Rightarrow>
          (let g = (if liveUpdate then startDebugger w g else g) in
           case resolveExtensions w (extNameList w) [] g of
             (extPathList, g) \<Rightarrow>
               if length extPathList = 0 then
                 Exits 1 (emit (PrintError ''No extension to watch.'') g)
               else Returns \<lparr>fileList = extPathList, assetWatch = None\<rparr> g))"

subsection \<open>The watcher\<close>

text \<open>
  A change event: the path that changed, the error of the notification source if any,
  the error of \<^verbatim>\<open>utils.CopyFile\<close> if the reaction copies the file and the copy fails,
  and what the client answers if a reload is attempted after the reaction.
\<close>

record event =
  changedPath :: string
  watchError :: "string option"
  copyError :: "string option"
  reload :: attempt

text \<open>
  Modelled from the spec: \<^verbatim>\<open>utils.Watch\<close> is not part of the sources. For each change
  event it invokes the reaction callback with the changed path and the error; when the
  reaction has returned it invokes the reload callback, if one is bound; then it waits
  for the next event. It never returns by itself: \<open>utilsWatch\<close> runs it on the events
  that have arrived so far, and \<open>Returns\<close> is the state in which it waits for the next
  one.
\<close>

fun utilsWatch ::
  "(event \<Rightarrow> globals \<Rightarrow> (unit, globals) outcome) \<Rightarrow> bool \<Rightarrow> event list \<Rightarrow> globals
     \<Rightarrow> (unit, globals) outcome" where
  "utilsWatch onChange bound [] g = Returns () g"
| "utilsWatch onChange bound (e # es) g =
     (case onChange e g of
        Exits c g1 \<Rightarrow> Exits c g1
      | Returns _ g1 \<Rightarrow>
          (case (if bound then autoReloadFunc (reload e) g1 else Returns () g1) of
             Exits c g2 \<Rightarrow> Exits c g2
           | Returns _ g2 \<Rightarrow> utilsWatch onChange bound es g2))"

text \<open>
  The reaction callback of \<^verbatim>\<open>WatchExtensions\<close> (lines 96 to 108); the time stamp that
  \<^verbatim>\<open>utils.PrependTime\<close> puts before the message is left out.
\<close>

definition extensionChanged :: "event \<Rightarrow> globals \<Rightarrow> (unit, globals) outcome" where
  "extensionChanged e g =
     (case watchError e of
        Some m \<Rightarrow> Exits 1 (emit (PrintError m) g)
      | None \<Rightarrow>
          (case copyError e of
             Some m \<Rightarrow> Exits 1 (emit (PrintError m) g)
           | None \<Rightarrow>
               Returns () (emit (PrintSuccess
                 (''Extension \"'' @ changedPath e @ ''\" is updated.'')) g)))"

subsection \<open>The root directory\<close>

text \<open>
  The environment of the process, the operating system name, the directories that
  exist, and the paths at which a directory can be created.
\<close>

record host =
  environ :: "(string \<times> string) list"
  GOOS :: string
  creatable :: "string list"

definition LookupEnv :: "host \<Rightarrow> string \<Rightarrow> string \<times> bool" where
  "LookupEnv h k = (case map_of (environ h) k of None \<Rightarrow> ([], False) | Some v \<Rightarrow> (v, True))"

definition Getenv :: "host \<Rightarrow> string \<Rightarrow> string" where
  "Getenv h k = fst (LookupEnv h k)"

text \<open>
  Modelled from the spec: \<^verbatim>\<open>utils.CheckExistAndCreate\<close> is not part of the sources.
  It is the idempotent directory ensure of the spec: an existing directory is left as it
  is, an absent one is created, and a failure to create it ends the process with a
  non-zero status.
\<close>

definition CheckExistAndCreate :: "host \<Rightarrow> string \<Rightarrow> string list \<Rightarrow> (unit, string list) outcome" where
  "CheckExistAndCreate h dir dirs =
     (if dir \<in> set dirs then Returns () dirs
      else if dir \<in> set (creatable h) then Returns () (dirs @ [dir])
      else Exits 1 dirs)"

text \<open>
  \<^verbatim>\<open>getSpicetifyFolder\<close>. The deferred call runs after the result is fixed and before
  the caller receives it.
\<close>

definition getSpicetifyFolder :: "host \<Rightarrow> string list \<Rightarrow> (string, string list) outcome" where
  "getSpicetifyFolder h dirs =
     (case LookupEnv h ''SPICETIFY_CONFIG'' of
        (result, isAvailable) \<Rightarrow>
          (let result =
             (if isAvailable \<and> length result > 0 then result
              else if GOOS h = ''windows'' then Join [Getenv h ''USERPROFILE'', ''.spicetify'']
              else if GOOS h = ''linux'' \<or> GOOS h = ''darwin'' then
                (case LookupEnv h ''XDG_CONFIG_HOME'' of
                   (parent, isAvailable) \<Rightarrow>
                     (let parent = (if \<not> isAvailable \<or> length parent = 0
                                    then Join [Getenv h ''HOME'', ''.config''] else parent)
                      in Join [parent, ''spicetify'']))
              else result)
           in case CheckExistAndCreate h result dirs of
                Returns _ dirs' \<Rightarrow> Returns result dirs'
              | Exits c dirs' \<Rightarrow> Exits c dirs'))"

subsection \<open>Auxiliary definitions\<close>

text \<open>
  The state \<^verbatim>\<open>InitSetting\<close> has reached after the three existence checks, when the
  theme folder resolved to \<open>folder\<close>.
\<close>

definition afterChecks :: "world \<Rightarrow> string \<Rightarrow> globals \<Rightarrow> globals" where
  "afterChecks w folder g =
     g\<lparr>themeFolder := folder,
       replaceColors := (MustBool False (KeyString (settingSection w) ''replace_colors'')
                         \<and> Stat w (Join [folder, ''color.ini''])),
       injectCSS := (MustBool False (KeyString (settingSection w) ''inject_css'')
                     \<and> Stat w (Join [folder, ''user.css''])),
       overwriteAssets := (MustBool False (KeyString (settingSection w) ''overwrite_assets'')
                           \<and> Stat w (Join [folder, ''assets'']))\<rparr>"

text \<open>
  All the keys written under a stored section name, in file order, and the section the
  loader builds for that name from the sections of a text (the default section also
  takes the keys written before the first header).
\<close>

definition writtenKeys :: "(string \<Rightarrow> string) \<Rightarrow> string \<Rightarrow> Section list \<Rightarrow> (string \<times> string) list" where
  "writtenKeys lower n ss = concat (map keys (filter (\<lambda>s. sectionName lower (name s) = n) ss))"

definition stored :: "(string \<Rightarrow> string) \<Rightarrow> IniText \<Rightarrow> string \<Rightarrow> Section" where
  "stored lower txt n =
     \<lparr>name = n,
      keys = addKeys lower []
               ((if n = defaultName lower then preamble txt else [])
                @ writtenKeys lower n (written txt))\<rparr>"

text \<open>
  Concrete worlds. \<open>w0\<close> has no theme name. \<open>w1\<close> has a theme \<^verbatim>\<open>Dark\<close> in the user's
  themes folder, with a stylesheet, no assets directory, and a color file with the three
  sections \<^verbatim>\<open>[Main]\<close>, \<^verbatim>\<open>[SchemeA]\<close> and \<^verbatim>\<open>[schemeb]\<close>; its config asks for
  the scheme \<^verbatim>\<open>SchemeB\<close>. \<open>cfg1\<close> is that color file as loaded and \<open>resolved1\<close>
  the state \<open>w1\<close> resolves to from the initial state.
\<close>

definition w0 :: world where
  "w0 = \<lparr>settingSection = [(''replace_colors'', ''1''), (''inject_css'', ''1''), (''overwrite_assets'', ''1'')],
     statOK = [], iniFiles = [], ToLower = asciiToLower,
     userThemesFolder = ''/u/Themes'', executableDir = ''/x'',
     isModdable = True, debuggerPath = [],
     getExtensionPath = (\<lambda>v. None), extNameList = []\<rparr>"

definition txt1 :: IniText where
  "txt1 = \<lparr>preamble = [],
            written = [\<lparr>name = ''Main'', keys = []\<rparr>,
                       \<lparr>name = ''SchemeA'', keys = [(''Main_fg'', ''ffffff'')]\<rparr>,
                       \<lparr>name = ''schemeb'', keys = [(''main_fg'', ''000000'')]\<rparr>]\<rparr>"

definition w1 :: world where
  "w1 = \<lparr>settingSection = [(''current_theme'', ''Dark''), (''replace_colors'', ''1''),
       (''inject_css'', ''true''), (''overwrite_assets'', ''1''), (''color_scheme'', ''SchemeB'')],
     statOK = [''/u/Themes/Dark'', ''/u/Themes/Dark/color.ini'', ''/u/Themes/Dark/user.css''],
     iniFiles = [(''/u/Themes/Dark/color.ini'', txt1)], ToLower = asciiToLower,
     userThemesFolder = ''/u/Themes'', executableDir = ''/x'',
     isModdable = True, debuggerPath = [],
     getExtensionPath = (\<lambda>v. if v = ''a.js'' then Some ''/u/Extensions/a.js'' else None),
     extNameList = [''a.js'', ''b.js'']\<rparr>"

definition cfg1 :: File where
  "cfg1 = [\<lparr>name = ''default'', keys = []\<rparr>,
           \<lparr>name = ''main'', keys = []\<rparr>,
           \<lparr>name = ''schemea'', keys = [(''main_fg'', ''ffffff'')]\<rparr>,
           \<lparr>name = ''schemeb'', keys = [(''main_fg'', ''000000'')]\<rparr>]"

definition resolved1 :: globals where
  "resolved1 = initial\<lparr>themeFolder := ''/u/Themes/Dark'',
     colorCfg := Some cfg1,
     colorSection := Some \<lparr>name = ''schemeb'', keys = [(''main_fg'', ''000000'')]\<rparr>,
     injectCSS := True, replaceColors := True\<rparr>"

text \<open>
  \<open>w2\<close> is \<open>w1\<close> with a color file that has no section header, \<open>w3\<close> is \<open>w1\<close>
  after \<^verbatim>\<open>color.ini\<close> has been removed from the theme folder, and \<open>w4\<close> is \<open>w1\<close>
  with no \<^verbatim>\<open>color_scheme\<close> configured. In \<open>w5\<close> the color file has the sections
  \<^verbatim>\<open>[DEFAULT]\<close> and \<^verbatim>\<open>[Dark]\<close> and the config asks for the scheme \<^verbatim>\<open>default\<close>.
\<close>

definition w2 :: world where
  "w2 = w1\<lparr>iniFiles := [(''/u/Themes/Dark/color.ini'', \<lparr>preamble = [], written = []\<rparr>)]\<rparr>"

definition w3 :: world where
  "w3 = w1\<lparr>statOK := [''/u/Themes/Dark'', ''/u/Themes/Dark/user.css'']\<rparr>"

definition w4 :: world where
  "w4 = w1\<lparr>settingSection := [(''current_theme'', ''Dark''), (''replace_colors'', ''1''),
       (''inject_css'', ''true''), (''overwrite_assets'', ''1'')]\<rparr>"

definition txt5 :: IniText where
  "txt5 = \<lparr>preamble = [],
            written = [\<lparr>name = ''DEFAULT'', keys = [(''main_fg'', ''ffffff'')]\<rparr>,
                       \<lparr>name = ''Dark'', keys = [(''main_fg'', ''000000'')]\<rparr>]\<rparr>"

definition w5 :: world where
  "w5 = w1\<lparr>settingSection := [(''current_theme'', ''Dark''), (''replace_colors'', ''1''),
                                (''color_scheme'', ''default'')],
           iniFiles := [(''/u/Themes/Dark/color.ini'', txt5)]\<rparr>"

text \<open>
  The warnings \<^verbatim>\<open>WatchExtensions\<close> prints for the names that do not resolve, in the
  order of the configured list.
\<close>

definition notFound :: "world \<Rightarrow> string list \<Rightarrow> effect list" where
  "notFound w vs =
     map (\<lambda>v. PrintError (''Extension \"'' @ v @ ''\" not found.''))
         (filter (\<lambda>v. getExtensionPath w v = None) vs)"

text \<open>The number of reload attempts a state has seen.\<close>

fun isReloadDirective :: "effect \<Rightarrow> bool" where
  "isReloadDirective (ReloadDirective url) = True"
| "isReloadDirective e = False"

definition attempts :: "globals \<Rightarrow> nat" where
  "attempts g = length (filter isReloadDirective (trace g))"

text \<open>
  Two change events of an extension file: during the first the client refuses the
  connection, during the second it accepts it.
\<close>

definition ev1 :: event where
  "ev1 = \<lparr>changedPath = ''/u/Extensions/a.js'', watchError = None, copyError = None,
           reload = \<lparr>endpoint = ''ws://localhost:9222/1'', accepts = False\<rparr>\<rparr>"

definition ev2 :: event where
  "ev2 = \<lparr>changedPath = ''/u/Extensions/a.js'', watchError = None, copyError = None,
           reload = \<lparr>endpoint = ''ws://localhost:9222/2'', accepts = True\<rparr>\<rparr>"

text \<open>A host with the override \<^verbatim>\<open>SPICETIFY_CONFIG\<close> set.\<close>

definition h1 :: host where
  "h1 = \<lparr>environ = [(''HOME'', ''/home/u''), (''SPICETIFY_CONFIG'', ''/cfg/spice'')],
          GOOS = ''linux'', creatable = [''/cfg/spice'']\<rparr>"

section \<open>Properties\<close>

subsection \<open>Auxiliary lemmas\<close>

lemma getThemeFolder_state:
  "getThemeFolder w t g = Returns folder g' \<Longrightarrow> g' = g"
  by (simp add: getThemeFolder_def Let_def split: if_splits)

lemma getThemeFolder_any_state:
  "getThemeFolder w t g0 = Returns folder g1 \<Longrightarrow> getThemeFolder w t g = Returns folder g"
  by (simp add: getThemeFolder_def Let_def split: if_splits)

lemma getThemeFolder_exits_any:
  "getThemeFolder w t g0 = Exits c g1 \<Longrightarrow> \<exists>g'. getThemeFolder w t g = Exits c g'"
  by (simp add: getThemeFolder_def Let_def split: if_splits)

lemma loadColors_frame:
  "themeFolder (loadColors w g) = themeFolder g"
  "injectCSS (loadColors w g) = injectCSS g"
  "overwriteAssets (loadColors w g) = overwriteAssets g"
  "debuggerURL (loadColors w g) = debuggerURL g"
  "autoReloadBound (loadColors w g) = autoReloadBound g"
  by (simp_all add: loadColors_def Let_def emit_def split: option.splits)

lemma loadColors_replaceColors:
  "replaceColors (loadColors w g) \<Longrightarrow> replaceColors g"
  by (simp add: loadColors_def Let_def emit_def split: option.splits if_splits)

lemma InitSetting_returns:
  assumes "KeyString (settingSection w) ''current_theme'' \<noteq> []"
      and "getThemeFolder w (KeyString (settingSection w) ''current_theme'') g0 = Returns folder g1"
  shows "InitSetting w g = Returns () (loadColors w (afterChecks w folder g))"
proof -
  let ?gA = "g\<lparr>replaceColors := MustBool False (KeyString (settingSection w) ''replace_colors''),
                injectCSS := MustBool False (KeyString (settingSection w) ''inject_css''),
                overwriteAssets := MustBool False (KeyString (settingSection w) ''overwrite_assets'')\<rparr>"
  have "getThemeFolder w (KeyString (settingSection w) ''current_theme'') ?gA = Returns folder ?gA"
    using assms(2) by (rule getThemeFolder_any_state)
  then show ?thesis
    using assms(1) by (cases g) (auto simp add: InitSetting_def afterChecks_def Let_def)
qed

lemma InitSetting_exits:
  assumes "KeyString (settingSection w) ''current_theme'' \<noteq> []"
      and "getThemeFolder w (KeyString (settingSection w) ''current_theme'') g0 = Exits c g1"
  shows "\<exists>g'. InitSetting w g = Exits c g'"
proof -
  let ?gA = "g\<lparr>replaceColors := MustBool False (KeyString (settingSection w) ''replace_colors''),
                injectCSS := MustBool False (KeyString (settingSection w) ''inject_css''),
                overwriteAssets := MustBool False (KeyString (settingSection w) ''overwrite_assets'')\<rparr>"
  obtain g' where "getThemeFolder w (KeyString (settingSection w) ''current_theme'') ?gA = Exits c g'"
    using getThemeFolder_exits_any [OF assms(2)] by blast
  then show ?thesis
    using assms(1) by (simp add: InitSetting_def Let_def)
qed

lemma InitSetting_returns_folder:
  assumes "KeyString (settingSection w) ''current_theme'' \<noteq> []"
      and "InitSetting w g = Returns () g'"
  shows "\<exists>folder. getThemeFolder w (KeyString (settingSection w) ''current_theme'') g = Returns folder g"
proof (cases "getThemeFolder w (KeyString (settingSection w) ''current_theme'') g")
  case (Returns folder g1)
  then show ?thesis using getThemeFolder_state [OF Returns] by simp
next
  case (Exits c g1)
  then show ?thesis
    using InitSetting_exits [OF assms(1) Exits, of g] assms(2) by auto
qed

lemmas eval_defs = InitSetting_def getThemeFolder_def loadColors_def KeyString_def MustBool_def
  Join_def Stat_def InsensitiveLoad_def accepted_def parse_def addSection_def sectionName_def
  defaultName_def addKeys_def NewKey_def Sections_def GetSection_def asciiToLower_def
  lower_char_def emit_def initial_def Let_def

lemma InitSetting_w1: "InitSetting w1 initial = Returns () resolved1"
  by (simp add: w1_def txt1_def cfg1_def resolved1_def eval_defs)

lemma afterChecks_simps:
  "themeFolder (afterChecks w folder g) = folder"
  "trace (afterChecks w folder g) = trace g"
  "colorCfg (afterChecks w folder g) = colorCfg g"
  "colorSection (afterChecks w folder g) = colorSection g"
  "injectCSS (afterChecks w folder g) =
     (MustBool False (KeyString (settingSection w) ''inject_css'') \<and> Stat w (Join [folder, ''user.css'']))"
  "overwriteAssets (afterChecks w folder g) =
     (MustBool False (KeyString (settingSection w) ''overwrite_assets'') \<and> Stat w (Join [folder, ''assets'']))"
  "replaceColors (afterChecks w folder g) =
     (MustBool False (KeyString (settingSection w) ''replace_colors'') \<and> Stat w (Join [folder, ''color.ini'']))"
  by (simp_all add: afterChecks_def)

lemma loadColors_load_error:
  assumes "replaceColors g" and "InsensitiveLoad w (Join [themeFolder g, ''color.ini'']) = None"
  shows "loadColors w g =
           g\<lparr>colorCfg := None, replaceColors := False,
             trace := trace g @ [PrintError (''Cannot open file '' @ Join [themeFolder g, ''color.ini''])]\<rparr>"
  using assms by (cases g) (simp add: loadColors_def Let_def emit_def)

lemma loadColors_too_few:
  assumes "replaceColors g" and "InsensitiveLoad w (Join [themeFolder g, ''color.ini'']) = Some cfg"
      and "length (Sections cfg) < 2"
  shows "loadColors w g =
           g\<lparr>colorCfg := Some cfg, replaceColors := False,
             trace := trace g @ [PrintError (''No section found in '' @ Join [themeFolder g, ''color.ini''])]\<rparr>"
  using assms by (cases g) (simp add: loadColors_def Let_def emit_def)

lemma loadColors_select:
  assumes "replaceColors g" and "InsensitiveLoad w (Join [themeFolder g, ''color.ini'']) = Some cfg"
      and "2 \<le> length (Sections cfg)"
  shows "loadColors w g =
           g\<lparr>colorCfg := Some cfg,
             colorSection := Some
               (if KeyString (settingSection w) ''color_scheme'' = [] then Sections cfg ! 1
                else case GetSection (ToLower w) cfg (KeyString (settingSection w) ''color_scheme'') of
                       None \<Rightarrow> Sections cfg ! 1
                     | Some schemeSection \<Rightarrow> schemeSection)\<rparr>"
  using assms by (cases g) (simp add: loadColors_def Let_def split: option.splits)

lemma GetSection_find:
  "n \<noteq> [] \<Longrightarrow> GetSection lower cfg n = find (\<lambda>s. name s = lower n) cfg"
  by (simp add: GetSection_def)

lemma w1_facts:
  "KeyString (settingSection w1) ''current_theme'' = ''Dark''"
  "KeyString (settingSection w1) ''color_scheme'' = ''SchemeB''"
  "getThemeFolder w1 ''Dark'' initial = Returns ''/u/Themes/Dark'' initial"
  "MustBool False (KeyString (settingSection w1) ''replace_colors'')"
  "Join [''/u/Themes/Dark'', ''color.ini''] = ''/u/Themes/Dark/color.ini''"
  "Stat w1 ''/u/Themes/Dark/color.ini''"
  "map_of (iniFiles w1) ''/u/Themes/Dark/color.ini'' = Some txt1"
  "ToLower w1 = asciiToLower"
  "InsensitiveLoad w1 ''/u/Themes/Dark/color.ini'' = Some cfg1"
  by (simp_all add: w1_def txt1_def cfg1_def eval_defs)

lemma initial_trace: "trace initial = []"
  by (simp add: initial_def)

lemma w2_facts:
  "KeyString (settingSection w2) ''current_theme'' = ''Dark''"
  "getThemeFolder w2 ''Dark'' initial = Returns ''/u/Themes/Dark'' initial"
  "MustBool False (KeyString (settingSection w2) ''replace_colors'')"
  "MustBool False (KeyString (settingSection w2) ''inject_css'')"
  "Stat w2 ''/u/Themes/Dark/color.ini''"
  "Stat w2 ''/u/Themes/Dark/user.css''"
  "\<not> Stat w2 ''/u/Themes/Dark/assets''"
  "InsensitiveLoad w2 ''/u/Themes/Dark/color.ini'' = Some [\<lparr>name = ''default'', keys = []\<rparr>]"
  by (simp_all add: w2_def w1_def eval_defs)

lemma loadColors_same_flag:
  assumes "themeFolder a = themeFolder b" and "replaceColors a = replaceColors b"
  shows "replaceColors (loadColors w a) = replaceColors (loadColors w b)"
  using assms by (simp add: loadColors_def Let_def emit_def split: option.splits)

lemma loadColors_same_section:
  assumes "themeFolder a = themeFolder b" and "replaceColors a = replaceColors b"
      and "replaceColors (loadColors w a)"
  shows "colorSection (loadColors w a) = colorSection (loadColors w b)"
  using assms by (auto simp add: loadColors_def Let_def emit_def split: option.splits if_splits)

lemma loadColors_keeps_section:
  assumes "\<not> replaceColors (loadColors w a)"
  shows "colorSection (loadColors w a) = colorSection a"
  using assms by (auto simp add: loadColors_def Let_def emit_def split: option.splits if_splits)

lemma resolve_same:
  "replaceColors (loadColors w (afterChecks w folder a))
     = replaceColors (loadColors w (afterChecks w folder b))"
  "injectCSS (loadColors w (afterChecks w folder a))
     = injectCSS (loadColors w (afterChecks w folder b))"
  "overwriteAssets (loadColors w (afterChecks w folder a))
     = overwriteAssets (loadColors w (afterChecks w folder b))"
  by (simp_all add: loadColors_frame afterChecks_simps
        loadColors_same_flag [of "afterChecks w folder a" "afterChecks w folder b"])

lemma resolve_folder:
  "themeFolder (loadColors w (afterChecks w folder a)) = folder"
  by (simp add: loadColors_frame afterChecks_simps)

lemma resolve_same_section:
  "replaceColors (loadColors w (afterChecks w folder a)) \<Longrightarrow>
   colorSection (loadColors w (afterChecks w folder a))
     = colorSection (loadColors w (afterChecks w folder b))"
  by (rule loadColors_same_section) (simp_all add: afterChecks_simps)

lemma resolve_keeps_section:
  "\<not> replaceColors (loadColors w (afterChecks w folder a)) \<Longrightarrow>
   colorSection (loadColors w (afterChecks w folder a)) = colorSection a"
  by (simp add: loadColors_keeps_section afterChecks_simps)

lemma resolveExtensions_eq:
  "resolveExtensions w vs acc g =
     (acc @ List.map_filter (getExtensionPath w) vs, g\<lparr>trace := trace g @ notFound w vs\<rparr>)"
proof (induction vs arbitrary: acc g)
  case Nil
  then show ?case by (simp add: notFound_def List.map_filter_simps)
next
  case (Cons v vs)
  show ?case
  proof (cases "getExtensionPath w v")
    case None
    then show ?thesis
      by (simp add: Cons.IH notFound_def List.map_filter_simps emit_def)
  next
    case (Some p)
    then show ?thesis
      by (simp add: Cons.IH notFound_def List.map_filter_simps)
  qed
qed

lemma map_filter_Nil_iff:
  "List.map_filter f xs = [] \<longleftrightarrow> (\<forall>x \<in> set xs. f x = None)"
  by (induction xs) (auto simp add: List.map_filter_simps split: option.splits)

lemma addKeys_simps:
  "addKeys lower ks [] = ks"
  "addKeys lower (addKeys lower ks a) b = addKeys lower ks (a @ b)"
  by (simp_all add: addKeys_def)

lemma names_addSection:
  "map name (addSection lower f s) =
     (if sectionName lower (name s) \<in> set (map name f) then map name f
      else map name f @ [sectionName lower (name s)])"
  by (induction f) (auto simp add: addSection_def Let_def)

lemma names_foldl_prefix:
  "\<exists>extra. map name (foldl (addSection lower) f ss) = map name f @ extra"
proof (induction ss arbitrary: f)
  case Nil
  then show ?case by simp
next
  case (Cons s ss)
  have "\<exists>e1. map name (addSection lower f s) = map name f @ e1"
    by (simp add: names_addSection)
  then obtain e1 where e1: "map name (addSection lower f s) = map name f @ e1"
    by blast
  obtain e2 where "map name (foldl (addSection lower) (addSection lower f s) ss)
                     = map name (addSection lower f s) @ e2"
    using Cons.IH by blast
  then show ?case using e1 by simp
qed

lemma names_foldl_distinct:
  "distinct (map name f) \<Longrightarrow> distinct (map name (foldl (addSection lower) f ss))"
proof (induction ss arbitrary: f)
  case Nil
  then show ?case by simp
next
  case (Cons s ss)
  have "distinct (map name (addSection lower f s))"
    using Cons.prems by (simp add: names_addSection)
  then show ?case using Cons.IH by simp
qed

lemma find_app:
  "find P (xs @ ys) = (case find P xs of None \<Rightarrow> find P ys | Some x \<Rightarrow> Some x)"
  by (induction xs) auto

lemma find_addSection:
  "find (\<lambda>x. name x = n) (addSection lower f s) =
     (if sectionName lower (name s) = n then
        (case find (\<lambda>x. name x = n) f of
           Some x \<Rightarrow> Some (x\<lparr>keys := addKeys lower (keys x) (keys s)\<rparr>)
         | None \<Rightarrow> Some \<lparr>name = n, keys = addKeys lower [] (keys s)\<rparr>)
      else find (\<lambda>x. name x = n) f)"
proof (cases "sectionName lower (name s) \<in> set (map name f)")
  case True
  have "find (\<lambda>x. name x = n)
          (map (\<lambda>x. if name x = m then x\<lparr>keys := addKeys lower (keys x) (keys s)\<rparr> else x) f)
        = (if m = n then map_option (\<lambda>x. x\<lparr>keys := addKeys lower (keys x) (keys s)\<rparr>)
                           (find (\<lambda>x. name x = n) f)
           else find (\<lambda>x. name x = n) f)" for m
    by (induction f) auto
  moreover have "n \<in> set (map name f) \<Longrightarrow> find (\<lambda>x. name x = n) f \<noteq> None"
    by (auto simp add: find_None_iff)
  ultimately show ?thesis
    using True by (auto simp add: addSection_def Let_def split: option.splits)
next
  case False
  have "n \<notin> set (map name f) \<Longrightarrow> find (\<lambda>x. name x = n) f = None"
    by (auto simp add: find_None_iff)
  then show ?thesis
    using False by (auto simp add: addSection_def Let_def find_app split: option.splits)
qed

lemma find_foldl_addSection:
  "find (\<lambda>x. name x = n) (foldl (addSection lower) f ss) =
     (case find (\<lambda>x. name x = n) f of
        Some x \<Rightarrow> Some (x\<lparr>keys := addKeys lower (keys x) (writtenKeys lower n ss)\<rparr>)
      | None \<Rightarrow>
          if n \<in> (\<lambda>s. sectionName lower (name s)) ` set ss
          then Some \<lparr>name = n, keys = addKeys lower [] (writtenKeys lower n ss)\<rparr>
          else None)"
proof (induction ss arbitrary: f)
  case Nil
  then show ?case by (simp add: writtenKeys_def addKeys_simps split: option.splits)
next
  case (Cons s ss)
  show ?case
    by (simp add: Cons.IH find_addSection writtenKeys_def addKeys_simps split: option.splits)
qed

lemma parse_find:
  "find (\<lambda>x. name x = n) (parse lower txt) =
     (if n = defaultName lower \<or> n \<in> (\<lambda>s. sectionName lower (name s)) ` set (written txt)
      then Some (stored lower txt n) else None)"
  by (simp add: parse_def find_foldl_addSection stored_def addKeys_simps)

lemma parse_distinct: "distinct (map name (parse lower txt))"
  by (simp add: parse_def names_foldl_distinct)

lemma parse_names:
  "\<exists>extra. map name (parse lower txt) = defaultName lower # extra"
  using names_foldl_prefix
    [of lower "[\<lparr>name = defaultName lower, keys = addKeys lower [] (preamble txt)\<rparr>]" "written txt"]
  by (simp add: parse_def)

lemma parse_first:
  "parse lower txt \<noteq> []" "name (parse lower txt ! 0) = defaultName lower"
proof -
  obtain extra where e: "map name (parse lower txt) = defaultName lower # extra"
    using parse_names [of lower "txt"] by auto
  then show "parse lower txt \<noteq> []" by auto
  then have "name (parse lower txt ! 0) = map name (parse lower txt) ! 0"
    by simp
  then show "name (parse lower txt ! 0) = defaultName lower"
    using e by simp
qed

lemma unique_by_name:
  assumes "distinct (map name xs)" and "x \<in> set xs" and "y \<in> set xs" and "name x = name y"
  shows "x = y"
proof -
  have "inj_on name (set xs)"
    using assms(1) by (simp add: distinct_map)
  then show ?thesis using assms(2-4) by (auto dest: inj_onD)
qed

lemma parse_second:
  assumes "written txt = s1 # rest"
      and "sectionName lower (name s1) \<noteq> defaultName lower"
  shows "2 \<le> length (parse lower txt)"
    and "parse lower txt ! 1 = stored lower txt (sectionName lower (name s1))"
proof -
  let ?n = "sectionName lower (name s1)"
  let ?d = "\<lparr>name = defaultName lower, keys = addKeys lower [] (preamble txt)\<rparr>"
  let ?f2 = "[?d, \<lparr>name = ?n, keys = addKeys lower [] (keys s1)\<rparr>]"
  have p: "parse lower txt = foldl (addSection lower) ?f2 rest"
    using assms by (simp add: parse_def addSection_def Let_def)
  obtain extra where e: "map name (parse lower txt) = [defaultName lower, ?n] @ extra"
    using names_foldl_prefix [of lower ?f2 rest] p by auto
  have len: "length (map name (parse lower txt)) = 2 + length extra"
    using e by simp
  then show two: "2 \<le> length (parse lower txt)" by simp
  have "map name (parse lower txt) ! 1 = ?n"
    using e by simp
  then have nm: "name (parse lower txt ! 1) = ?n"
    using two by simp
  have mem1: "parse lower txt ! 1 \<in> set (parse lower txt)"
    using two by simp
  have "find (\<lambda>x. name x = ?n) (parse lower txt) = Some (stored lower txt ?n)"
    using assms(1) by (simp add: parse_find)
  then have mem2: "stored lower txt ?n \<in> set (parse lower txt)"
    and nm2: "name (stored lower txt ?n) = ?n"
    by (auto simp add: find_Some_iff stored_def)
  show "parse lower txt ! 1 = stored lower txt ?n"
    using unique_by_name [OF parse_distinct mem1 mem2] nm nm2 by simp
qed

lemma InsensitiveLoad_text:
  assumes "map_of (iniFiles w) p = Some txt" and "accepted txt"
  shows "InsensitiveLoad w p = Some (parse (ToLower w) txt)"
  using assms by (simp add: InsensitiveLoad_def)

lemma loadColors_selected:
  assumes "replaceColors g" and "InsensitiveLoad w (Join [themeFolder g, ''color.ini'']) = Some cfg"
      and "2 \<le> length (Sections cfg)"
  shows "replaceColors (loadColors w g)"
    and "colorSection (loadColors w g) = Some
               (if KeyString (settingSection w) ''color_scheme'' = [] then Sections cfg ! 1
                else case GetSection (ToLower w) cfg (KeyString (settingSection w) ''color_scheme'') of
                       None \<Rightarrow> Sections cfg ! 1
                     | Some schemeSection \<Rightarrow> schemeSection)"
  using assms by (simp_all add: loadColors_select)

lemma w4_facts:
  "KeyString (settingSection w4) ''current_theme'' = ''Dark''"
  "KeyString (settingSection w4) ''color_scheme'' = []"
  "getThemeFolder w4 ''Dark'' initial = Returns ''/u/Themes/Dark'' initial"
  "MustBool False (KeyString (settingSection w4) ''replace_colors'')"
  "Stat w4 ''/u/Themes/Dark/color.ini''"
  "map_of (iniFiles w4) ''/u/Themes/Dark/color.ini'' = Some txt1"
  "ToLower w4 = asciiToLower"
  by (simp_all add: w4_def w1_def eval_defs)

lemma txt1_facts:
  "accepted txt1"
  "written txt1 = \<lparr>name = ''Main'', keys = []\<rparr> #
                  [\<lparr>name = ''SchemeA'', keys = [(''Main_fg'', ''ffffff'')]\<rparr>,
                   \<lparr>name = ''schemeb'', keys = [(''main_fg'', ''000000'')]\<rparr>]"
  "sectionName asciiToLower ''Main'' = ''main''"
  "defaultName asciiToLower = ''default''"
  "stored asciiToLower txt1 ''main'' = \<lparr>name = ''main'', keys = []\<rparr>"
  "stored asciiToLower txt1 ''schemeb'' = \<lparr>name = ''schemeb'', keys = [(''main_fg'', ''000000'')]\<rparr>"
  "parse asciiToLower txt1 = cfg1"
  by (simp_all add: txt1_def cfg1_def stored_def writtenKeys_def eval_defs)

lemma attempts_emit:
  "attempts (emit e g) = attempts g + (if isReloadDirective e then 1 else 0)"
  by (simp add: attempts_def emit_def)

lemma attempts_url: "attempts (g\<lparr>debuggerURL := u\<rparr>) = attempts g"
  by (simp add: attempts_def)

lemma autoReloadFunc_returns:
  "\<exists>g'. autoReloadFunc a g = Returns () g' \<and> attempts g' = attempts g + 1"
  by (simp add: autoReloadFunc_def Let_def attempts_emit attempts_url split: prod.splits)

lemma autoReloadFunc_failed:
  assumes "snd (SendReload a (debuggerURL g))"
  shows "autoReloadFunc a g =
           Returns () (g\<lparr>debuggerURL := fst (SendReload a (debuggerURL g)),
             trace := trace g @
               [ReloadDirective (fst (SendReload a (debuggerURL g))),
                PrintError ''Could not Reload Spotify'',
                PrintInfo ''Close Spotify and run \"spicetify watch -e -l\" again.'']\<rparr>)"
proof -
  obtain u f where uf: "SendReload a (debuggerURL g) = (u, f)"
    by (cases "SendReload a (debuggerURL g)")
  then show ?thesis
    using assms by (cases g) (simp add: autoReloadFunc_def Let_def emit_def)
qed

lemma utilsWatch_attempts:
  assumes "\<forall>e \<in> set es. \<forall>g. \<exists>g'. onChange e g = Returns () g' \<and> attempts g' = attempts g"
  shows "\<exists>g'. utilsWatch onChange True es g = Returns () g' \<and> attempts g' = attempts g + length es"
  using assms
proof (induction es arbitrary: g)
  case Nil
  then show ?case by simp
next
  case (Cons e es)
  have "\<exists>g1. onChange e g = Returns () g1 \<and> attempts g1 = attempts g"
    using Cons.prems by simp
  then obtain g1 where g1: "onChange e g = Returns () g1" "attempts g1 = attempts g"
    by blast
  obtain g2 where g2: "autoReloadFunc (reload e) g1 = Returns () g2" "attempts g2 = attempts g1 + 1"
    using autoReloadFunc_returns by blast
  obtain g3 where "utilsWatch onChange True es g2 = Returns () g3"
      "attempts g3 = attempts g2 + length es"
    using Cons.IH [of g2] Cons.prems by auto
  then show ?case using g1 g2 by simp
qed

lemma extensionChanged_returns:
  assumes "watchError e = None" and "copyError e = None"
  shows "\<exists>g'. extensionChanged e g = Returns () g' \<and> attempts g' = attempts g"
  using assms by (simp add: extensionChanged_def attempts_emit)

subsection \<open>A blank theme name\<close>

text \<open>
  Claim C10 (frame). When the key \<^verbatim>\<open>current_theme\<close> is empty, \<^verbatim>\<open>InitSetting\<close>
  returns after setting the three flags to false and changes nothing else: the theme
  folder, the parsed color file and the selected color section keep the values they had
  before the call. From the initial state the theme folder therefore stays empty, which
  is what \<^verbatim>\<open>Watch\<close> tests before it aborts.
\<close>

theorem InitSetting_blank_theme_frame:
  assumes "KeyString (settingSection w) ''current_theme'' = []"
  shows "InitSetting w g =
           Returns () (g\<lparr>injectCSS := False, replaceColors := False, overwriteAssets := False\<rparr>)
         \<and> (\<exists>g'. InitSetting w initial = Returns () g' \<and> themeFolder g' = []
                  \<and> colorCfg g' = None \<and> colorSection g' = None)"
  using assms by (simp add: InitSetting_def initial_def)

theorem InitSetting_blank_theme_frame_witness:
  "KeyString (settingSection w0) ''current_theme'' = []
   \<and> InitSetting w0 initial = Returns () initial"
  using InitSetting_blank_theme_frame [of w0 initial]
  by (simp add: w0_def initial_def KeyString_def)

text \<open>
  Claim C2. When the key \<^verbatim>\<open>current_theme\<close> is empty, \<^verbatim>\<open>InitSetting\<close> yields
  \<^verbatim>\<open>replaceColors = injectCSS = overwriteAssets = false\<close> whatever the raw preferences
  are, and the watch command that resolved the settings on an empty theme folder ends
  the process with exit status 1 after printing an error.
\<close>

theorem InitSetting_blank_theme_flags:
  assumes "KeyString (settingSection w) ''current_theme'' = []"
      and "themeFolder g = []"
  shows "(\<exists>g'. InitSetting w g = Returns () g'
              \<and> \<not> replaceColors g' \<and> \<not> injectCSS g' \<and> \<not> overwriteAssets g')
         \<and> (\<exists>g' m. Watch w liveUpdate g = Exits 1 g'
              \<and> trace g' \<noteq> [] \<and> last (trace g') = PrintError m
              \<and> (isModdable w \<longrightarrow>
                    \<not> replaceColors g' \<and> \<not> injectCSS g' \<and> \<not> overwriteAssets g'))"
proof (intro conjI)
  let ?g1 = "g\<lparr>injectCSS := False, replaceColors := False, overwriteAssets := False\<rparr>"
  have init: "InitSetting w g = Returns () ?g1"
    using assms(1) by (simp add: InitSetting_def)
  show "\<exists>g'. InitSetting w g = Returns () g'
              \<and> \<not> replaceColors g' \<and> \<not> injectCSS g' \<and> \<not> overwriteAssets g'"
    using init by simp
  show "\<exists>g' m. Watch w liveUpdate g = Exits 1 g'
              \<and> trace g' \<noteq> [] \<and> last (trace g') = PrintError m
              \<and> (isModdable w \<longrightarrow>
                    \<not> replaceColors g' \<and> \<not> injectCSS g' \<and> \<not> overwriteAssets g')"
  proof (cases "isModdable w")
    case False
    then show ?thesis
      by (simp add: Watch_def isValidForWatching_def emit_def)
  next
    case True
    then show ?thesis
      using init assms(2)
      by (simp add: Watch_def isValidForWatching_def startDebugger_def emit_def Let_def)
  qed
qed

theorem InitSetting_blank_theme_flags_witness:
  "KeyString (settingSection w0) ''current_theme'' = [] \<and> themeFolder initial = []
   \<and> MustBool False (KeyString (settingSection w0) ''replace_colors'')
   \<and> (\<exists>g'. Watch w0 True initial = Exits 1 g' \<and> \<not> replaceColors g')"
  using InitSetting_blank_theme_flags [of w0 initial True]
  by (auto simp add: w0_def initial_def KeyString_def MustBool_def)

subsection \<open>Existence-gated flags\<close>

text \<open>
  Claim C3. After \<^verbatim>\<open>InitSetting\<close> has returned for a non-empty theme name, each flag
  is true only if its raw preference is enabled and its resource exists under the
  resolved theme folder: \<^verbatim>\<open>color.ini\<close> for \<^verbatim>\<open>replaceColors\<close>, \<^verbatim>\<open>user.css\<close> for
  \<^verbatim>\<open>injectCSS\<close>, the directory \<^verbatim>\<open>assets\<close> for \<^verbatim>\<open>overwriteAssets\<close>. In particular a
  theme folder without \<^verbatim>\<open>assets\<close> gives \<^verbatim>\<open>overwriteAssets = false\<close>.
\<close>

theorem InitSetting_flags_gated:
  assumes "KeyString (settingSection w) ''current_theme'' \<noteq> []"
      and "InitSetting w g = Returns () g'"
  shows "(replaceColors g' \<longrightarrow>
            MustBool False (KeyString (settingSection w) ''replace_colors'')
            \<and> Stat w (Join [themeFolder g', ''color.ini'']))
       \<and> (injectCSS g' \<longrightarrow>
            MustBool False (KeyString (settingSection w) ''inject_css'')
            \<and> Stat w (Join [themeFolder g', ''user.css'']))
       \<and> (overwriteAssets g' \<longrightarrow>
            MustBool False (KeyString (settingSection w) ''overwrite_assets'')
            \<and> Stat w (Join [themeFolder g', ''assets'']))
       \<and> (\<not> Stat w (Join [themeFolder g', ''assets'']) \<longrightarrow> \<not> overwriteAssets g')"
proof -
  obtain folder where
    tf: "getThemeFolder w (KeyString (settingSection w) ''current_theme'') g = Returns folder g"
    using InitSetting_returns_folder [OF assms] by blast
  have g': "g' = loadColors w (afterChecks w folder g)"
    using InitSetting_returns [OF assms(1) tf, of g] assms(2) by simp
  have rc: "replaceColors g' \<Longrightarrow> replaceColors (afterChecks w folder g)"
    unfolding g' by (rule loadColors_replaceColors)
  show ?thesis
    using rc by (auto simp add: g' loadColors_frame afterChecks_def)
qed

theorem InitSetting_flags_gated_witness:
  "KeyString (settingSection w1) ''current_theme'' \<noteq> []
   \<and> InitSetting w1 initial = Returns () resolved1
   \<and> replaceColors resolved1 \<and> injectCSS resolved1 \<and> \<not> overwriteAssets resolved1
   \<and> MustBool False (KeyString (settingSection w1) ''overwrite_assets'')
   \<and> \<not> Stat w1 (Join [themeFolder resolved1, ''assets''])"
  using InitSetting_flags_gated [of w1 initial resolved1] InitSetting_w1
  by (simp add: w1_def resolved1_def KeyString_def MustBool_def Stat_def Join_def initial_def)

subsection \<open>The color file\<close>

text \<open>
  Claim C4. When \<^verbatim>\<open>InitSetting\<close> reaches the color file (the theme folder resolves,
  the raw preference \<^verbatim>\<open>replace_colors\<close> is enabled and \<^verbatim>\<open>color.ini\<close> exists) and the
  file cannot be loaded, or loads with fewer than two sections, then \<^verbatim>\<open>InitSetting\<close>
  returns normally with \<^verbatim>\<open>replaceColors = false\<close>, having printed exactly one error;
  \<^verbatim>\<open>injectCSS\<close> and \<^verbatim>\<open>overwriteAssets\<close> keep the values their own preference and
  resource give them.
\<close>

theorem InitSetting_color_file_unusable:
  assumes "KeyString (settingSection w) ''current_theme'' \<noteq> []"
      and "getThemeFolder w (KeyString (settingSection w) ''current_theme'') g0 = Returns folder g1"
      and "MustBool False (KeyString (settingSection w) ''replace_colors'')"
      and "Stat w (Join [folder, ''color.ini''])"
      and "InsensitiveLoad w (Join [folder, ''color.ini'']) = None
           \<or> (\<exists>cfg. InsensitiveLoad w (Join [folder, ''color.ini'']) = Some cfg
                    \<and> length (Sections cfg) < 2)"
  shows "\<exists>g'. InitSetting w g = Returns () g'
          \<and> \<not> replaceColors g'
          \<and> trace g' = trace g @
               [PrintError ((if InsensitiveLoad w (Join [folder, ''color.ini'']) = None
                             then ''Cannot open file '' else ''No section found in '')
                            @ Join [folder, ''color.ini''])]
          \<and> themeFolder g' = folder
          \<and> injectCSS g' = (MustBool False (KeyString (settingSection w) ''inject_css'')
                             \<and> Stat w (Join [folder, ''user.css'']))
          \<and> overwriteAssets g' = (MustBool False (KeyString (settingSection w) ''overwrite_assets'')
                                   \<and> Stat w (Join [folder, ''assets'']))"
proof -
  let ?g = "afterChecks w folder g"
  have ret: "InitSetting w g = Returns () (loadColors w ?g)"
    using assms(1,2) by (rule InitSetting_returns)
  have rc: "replaceColors ?g"
    using assms(3,4) by (simp add: afterChecks_simps)
  from assms(5) show ?thesis
  proof
    assume none: "InsensitiveLoad w (Join [folder, ''color.ini'']) = None"
    then have "loadColors w ?g =
        ?g\<lparr>colorCfg := None, replaceColors := False,
           trace := trace ?g @ [PrintError (''Cannot open file '' @ Join [themeFolder ?g, ''color.ini''])]\<rparr>"
      using loadColors_load_error [of ?g w] rc by (simp add: afterChecks_simps)
    then show ?thesis
      using ret none by (simp add: afterChecks_simps)
  next
    assume "\<exists>cfg. InsensitiveLoad w (Join [folder, ''color.ini'']) = Some cfg
                    \<and> length (Sections cfg) < 2"
    then obtain cfg where some: "InsensitiveLoad w (Join [folder, ''color.ini'']) = Some cfg"
      and few: "length (Sections cfg) < 2" by blast
    have "loadColors w ?g =
        ?g\<lparr>colorCfg := Some cfg, replaceColors := False,
           trace := trace ?g @ [PrintError (''No section found in '' @ Join [themeFolder ?g, ''color.ini''])]\<rparr>"
      using loadColors_too_few [of ?g w cfg] rc some few by (simp add: afterChecks_simps)
    then show ?thesis
      using ret some by (simp add: afterChecks_simps)
  qed
qed

theorem InitSetting_color_file_unusable_witness:
  "KeyString (settingSection w2) ''current_theme'' \<noteq> []
   \<and> MustBool False (KeyString (settingSection w2) ''replace_colors'')
   \<and> Stat w2 (Join [''/u/Themes/Dark'', ''color.ini''])
   \<and> InsensitiveLoad w2 (Join [''/u/Themes/Dark'', ''color.ini'']) = Some [\<lparr>name = ''default'', keys = []\<rparr>]
   \<and> (\<exists>g'. InitSetting w2 initial = Returns () g' \<and> \<not> replaceColors g' \<and> injectCSS g'
          \<and> trace g' = [PrintError ''No section found in /u/Themes/Dark/color.ini''])"
  using InitSetting_color_file_unusable [of w2 initial "''/u/Themes/Dark''" initial initial]
  by (auto simp add: w2_facts Join_def Sections_def initial_trace)

text \<open>
  Claim C1, as stated, fails: the section at index 1 of the loaded file is not the
  second section of the color file. The loader lists its own default section at index
  0, so that index 1 holds the first section written in the file. With the sections
  \<^verbatim>\<open>[Main]\<close>, \<^verbatim>\<open>[SchemeA]\<close>, \<^verbatim>\<open>[schemeb]\<close> and no \<^verbatim>\<open>color_scheme\<close> configured,
  \<^verbatim>\<open>InitSetting\<close> selects \<^verbatim>\<open>main\<close>, not \<^verbatim>\<open>schemea\<close>.
\<close>

theorem InitSetting_second_section_counterexample:
  "map_of (iniFiles w4) ''/u/Themes/Dark/color.ini'' = Some txt1
   \<and> KeyString (settingSection w4) ''color_scheme'' = []
   \<and> length (written txt1) = 3
   \<and> name (written txt1 ! 0) = ''Main''
   \<and> name (written txt1 ! 1) = ''SchemeA''
   \<and> InitSetting w4 initial =
         Returns () (resolved1\<lparr>colorSection := Some \<lparr>name = ''main'', keys = []\<rparr>\<rparr>)
   \<and> colorSection (resolved1\<lparr>colorSection := Some \<lparr>name = ''main'', keys = []\<rparr>\<rparr>)
         \<noteq> Some \<lparr>name = ''schemea'', keys = [(''main_fg'', ''ffffff'')]\<rparr>"
  by (simp add: w4_def w1_def txt1_def cfg1_def resolved1_def eval_defs)

text \<open>
  Claim C1, amended. When \<^verbatim>\<open>InitSetting\<close> reaches a color file that has at least one
  section, the first of them not named like the loader's default section, the loaded
  file has at least two sections: the default section at index 0 and, at index 1, the
  section stored for the first section written in the file. \<^verbatim>\<open>InitSetting\<close> returns
  with that section at index 1 selected when no \<^verbatim>\<open>color_scheme\<close> is configured or
  when the configured name matches no section of the loaded file, and with the section
  of the configured name selected when there is one.
\<close>

theorem InitSetting_scheme_selection:
  assumes "KeyString (settingSection w) ''current_theme'' \<noteq> []"
      and "getThemeFolder w (KeyString (settingSection w) ''current_theme'') g0 = Returns folder g1"
      and "MustBool False (KeyString (settingSection w) ''replace_colors'')"
      and "Stat w (Join [folder, ''color.ini''])"
      and "map_of (iniFiles w) (Join [folder, ''color.ini'']) = Some ini"
      and "accepted ini"
      and "written ini = s1 # rest"
      and "sectionName (ToLower w) (name s1) \<noteq> defaultName (ToLower w)"
  shows "\<exists>g' cfg. InitSetting w g = Returns () g' \<and> replaceColors g'
          \<and> InsensitiveLoad w (Join [folder, ''color.ini'']) = Some cfg
          \<and> 2 \<le> length (Sections cfg)
          \<and> name (Sections cfg ! 0) = defaultName (ToLower w)
          \<and> Sections cfg ! 1 = stored (ToLower w) ini (sectionName (ToLower w) (name s1))
          \<and> (KeyString (settingSection w) ''color_scheme'' = []
               \<longrightarrow> colorSection g' = Some (Sections cfg ! 1))
          \<and> ((\<forall>x \<in> set (Sections cfg).
                  name x \<noteq> ToLower w (KeyString (settingSection w) ''color_scheme''))
               \<longrightarrow> colorSection g' = Some (Sections cfg ! 1))
          \<and> (\<forall>x \<in> set (Sections cfg).
                 KeyString (settingSection w) ''color_scheme'' \<noteq> []
                 \<and> name x = ToLower w (KeyString (settingSection w) ''color_scheme'')
               \<longrightarrow> colorSection g' = Some x)"
proof -
  let ?g = "afterChecks w folder g"
  let ?cfg = "parse (ToLower w) ini"
  let ?scheme = "KeyString (settingSection w) ''color_scheme''"
  have ret: "InitSetting w g = Returns () (loadColors w ?g)"
    using assms(1,2) by (rule InitSetting_returns)
  have rc: "replaceColors ?g"
    using assms(3,4) by (simp add: afterChecks_simps)
  have load: "InsensitiveLoad w (Join [themeFolder ?g, ''color.ini'']) = Some ?cfg"
    using assms(5,6) by (simp add: InsensitiveLoad_text afterChecks_simps)
  have two: "2 \<le> length (Sections ?cfg)"
    and second: "Sections ?cfg ! 1 = stored (ToLower w) ini (sectionName (ToLower w) (name s1))"
    using parse_second [OF assms(7,8)] by (simp_all add: Sections_def)
  have first: "name (Sections ?cfg ! 0) = defaultName (ToLower w)"
    by (simp add: Sections_def parse_first)
  have rc': "replaceColors (loadColors w ?g)"
    using rc load two by (rule loadColors_selected)
  have cs: "colorSection (loadColors w ?g) = Some
               (if ?scheme = [] then Sections ?cfg ! 1
                else case GetSection (ToLower w) ?cfg ?scheme of
                       None \<Rightarrow> Sections ?cfg ! 1
                     | Some schemeSection \<Rightarrow> schemeSection)"
    using rc load two by (rule loadColors_selected)
  have none: "colorSection (loadColors w ?g) = Some (Sections ?cfg ! 1)"
    if "\<forall>x \<in> set (Sections ?cfg). name x \<noteq> ToLower w ?scheme"
  proof (cases "?scheme = []")
    case True
    then show ?thesis using cs by simp
  next
    case False
    have "find (\<lambda>s. name s = ToLower w ?scheme) ?cfg = None"
      using that by (simp add: find_None_iff Sections_def)
    then show ?thesis using cs False by (simp add: GetSection_find)
  qed
  have some: "colorSection (loadColors w ?g) = Some x"
    if "x \<in> set (Sections ?cfg)" and "?scheme \<noteq> []" and "name x = ToLower w ?scheme" for x
  proof -
    have "find (\<lambda>s. name s = ToLower w ?scheme) ?cfg \<noteq> None"
      using that by (auto simp add: find_None_iff Sections_def)
    then obtain y where y: "find (\<lambda>s. name s = ToLower w ?scheme) ?cfg = Some y"
      by blast
    then have "y \<in> set ?cfg" and "name y = ToLower w ?scheme"
      by (auto simp add: find_Some_iff)
    then have "y = x"
      using unique_by_name [OF parse_distinct, of y "ToLower w" ini x] that
      by (simp add: Sections_def)
    then show ?thesis using cs that(2) y by (simp add: GetSection_find)
  qed
  show ?thesis
    using ret rc' load two first second cs none some
    by (simp add: afterChecks_simps)
qed

theorem InitSetting_scheme_selection_witness:
  "KeyString (settingSection w4) ''current_theme'' \<noteq> []
   \<and> KeyString (settingSection w4) ''color_scheme'' = []
   \<and> MustBool False (KeyString (settingSection w4) ''replace_colors'')
   \<and> Stat w4 (Join [''/u/Themes/Dark'', ''color.ini''])
   \<and> map_of (iniFiles w4) (Join [''/u/Themes/Dark'', ''color.ini'']) = Some txt1
   \<and> accepted txt1
   \<and> name (hd (written txt1)) = ''Main''
   \<and> sectionName (ToLower w4) ''Main'' \<noteq> defaultName (ToLower w4)
   \<and> (\<exists>g'. InitSetting w4 initial = Returns () g' \<and> replaceColors g'
          \<and> colorSection g' = Some \<lparr>name = ''main'', keys = []\<rparr>)"
proof -
  have "\<exists>g' cfg. InitSetting w4 initial = Returns () g' \<and> replaceColors g'
          \<and> InsensitiveLoad w4 (Join [''/u/Themes/Dark'', ''color.ini'']) = Some cfg
          \<and> 2 \<le> length (Sections cfg)
          \<and> name (Sections cfg ! 0) = defaultName (ToLower w4)
          \<and> Sections cfg ! 1 = stored (ToLower w4) txt1
               (sectionName (ToLower w4) (name \<lparr>name = ''Main'', keys = []\<rparr>))
          \<and> (KeyString (settingSection w4) ''color_scheme'' = []
               \<longrightarrow> colorSection g' = Some (Sections cfg ! 1))
          \<and> ((\<forall>x \<in> set (Sections cfg).
                  name x \<noteq> ToLower w4 (KeyString (settingSection w4) ''color_scheme''))
               \<longrightarrow> colorSection g' = Some (Sections cfg ! 1))
          \<and> (\<forall>x \<in> set (Sections cfg).
                 KeyString (settingSection w4) ''color_scheme'' \<noteq> []
                 \<and> name x = ToLower w4 (KeyString (settingSection w4) ''color_scheme'')
               \<longrightarrow> colorSection g' = Some x)"
    by (rule InitSetting_scheme_selection
          [where ?g0.0 = initial and ?g1.0 = initial
             and rest = "[\<lparr>name = ''SchemeA'', keys = [(''Main_fg'', ''ffffff'')]\<rparr>,
                          \<lparr>name = ''schemeb'', keys = [(''main_fg'', ''000000'')]\<rparr>]"])
       (simp_all add: w4_facts w1_facts(5) txt1_facts)
  then obtain g' cfg where "InitSetting w4 initial = Returns () g'" "replaceColors g'"
      "Sections cfg ! 1 = stored (ToLower w4) txt1
               (sectionName (ToLower w4) (name \<lparr>name = ''Main'', keys = []\<rparr>))"
      "colorSection g' = Some (Sections cfg ! 1)"
    using w4_facts(2) by blast
  then have "\<exists>g'. InitSetting w4 initial = Returns () g' \<and> replaceColors g'
          \<and> colorSection g' = Some \<lparr>name = ''main'', keys = []\<rparr>"
    by (auto simp add: w4_facts txt1_facts)
  then show ?thesis
    by (simp add: w4_facts w1_facts(5) txt1_facts)
qed

text \<open>
  Claim C9, as stated, fails for a section whose header is spelled exactly
  \<^verbatim>\<open>DEFAULT\<close>: the loader keeps that name as written, while a lookup lowers the name
  it is given. With the sections \<^verbatim>\<open>[DEFAULT]\<close> and \<^verbatim>\<open>[Dark]\<close> and the scheme
  \<^verbatim>\<open>default\<close> configured, \<^verbatim>\<open>InitSetting\<close> selects the loader's own default section,
  which has no keys, and not the section written in the file.
\<close>

theorem InitSetting_reserved_name_counterexample:
  "map_of (iniFiles w5) ''/u/Themes/Dark/color.ini'' = Some txt5
   \<and> name (written txt5 ! 0) = ''DEFAULT''
   \<and> keys (written txt5 ! 0) = [(''main_fg'', ''ffffff'')]
   \<and> KeyString (settingSection w5) ''color_scheme'' = ''default''
   \<and> ToLower w5 ''DEFAULT'' = ToLower w5 ''default''
   \<and> InitSetting w5 initial =
         Returns () (initial\<lparr>themeFolder := ''/u/Themes/Dark'',
           colorCfg := Some [\<lparr>name = ''default'', keys = []\<rparr>,
                             \<lparr>name = ''DEFAULT'', keys = [(''main_fg'', ''ffffff'')]\<rparr>,
                             \<lparr>name = ''dark'', keys = [(''main_fg'', ''000000'')]\<rparr>],
           colorSection := Some \<lparr>name = ''default'', keys = []\<rparr>,
           replaceColors := True\<rparr>)"
  by (simp add: w5_def w1_def txt5_def eval_defs)

text \<open>
  Claim C9, amended. The configured \<^verbatim>\<open>color_scheme\<close> is matched without regard to
  letter case: when \<^verbatim>\<open>InitSetting\<close> has loaded a color file with at least two
  sections, and the file as written has a section, not spelled exactly \<^verbatim>\<open>DEFAULT\<close>,
  whose name equals the configured name up to letter case, then \<^verbatim>\<open>InitSetting\<close>
  selects the section stored under that name, which holds the keys written in that
  section, instead of falling back to index 1.
\<close>

theorem InitSetting_scheme_case_insensitive:
  assumes "KeyString (settingSection w) ''current_theme'' \<noteq> []"
      and "getThemeFolder w (KeyString (settingSection w) ''current_theme'') g0 = Returns folder g1"
      and "MustBool False (KeyString (settingSection w) ''replace_colors'')"
      and "Stat w (Join [folder, ''color.ini''])"
      and "map_of (iniFiles w) (Join [folder, ''color.ini'']) = Some ini"
      and "accepted ini"
      and "2 \<le> length (Sections (parse (ToLower w) ini))"
      and "KeyString (settingSection w) ''color_scheme'' \<noteq> []"
      and "s \<in> set (written ini)"
      and "name s \<noteq> ''DEFAULT''"
      and "ToLower w (name s) = ToLower w (KeyString (settingSection w) ''color_scheme'')"
  shows "\<exists>g'. InitSetting w g = Returns () g' \<and> replaceColors g'
          \<and> colorSection g' = Some (stored (ToLower w) ini (ToLower w (name s)))
          \<and> name (stored (ToLower w) ini (ToLower w (name s)))
                = ToLower w (KeyString (settingSection w) ''color_scheme'')
          \<and> set (keys s) \<subseteq> set (writtenKeys (ToLower w) (ToLower w (name s)) (written ini))"
proof -
  let ?g = "afterChecks w folder g"
  let ?cfg = "parse (ToLower w) ini"
  let ?scheme = "KeyString (settingSection w) ''color_scheme''"
  let ?n = "ToLower w (name s)"
  have ret: "InitSetting w g = Returns () (loadColors w ?g)"
    using assms(1,2) by (rule InitSetting_returns)
  have rc: "replaceColors ?g"
    using assms(3,4) by (simp add: afterChecks_simps)
  have load: "InsensitiveLoad w (Join [themeFolder ?g, ''color.ini'']) = Some ?cfg"
    using assms(5,6) by (simp add: InsensitiveLoad_text afterChecks_simps)
  have rc': "replaceColors (loadColors w ?g)"
    using rc load assms(7) by (rule loadColors_selected)
  have cs: "colorSection (loadColors w ?g) = Some
               (if ?scheme = [] then Sections ?cfg ! 1
                else case GetSection (ToLower w) ?cfg ?scheme of
                       None \<Rightarrow> Sections ?cfg ! 1
                     | Some schemeSection \<Rightarrow> schemeSection)"
    using rc load assms(7) by (rule loadColors_selected)
  have sn: "sectionName (ToLower w) (name s) = ?n"
    using assms(10) by (simp add: sectionName_def)
  then have "?n \<in> (\<lambda>s. sectionName (ToLower w) (name s)) ` set (written ini)"
    using assms(9) by force
  then have "find (\<lambda>x. name x = ?n) ?cfg = Some (stored (ToLower w) ini ?n)"
    by (simp add: parse_find)
  then have "GetSection (ToLower w) ?cfg ?scheme = Some (stored (ToLower w) ini ?n)"
    using assms(8,11) by (simp add: GetSection_find)
  then have sel: "colorSection (loadColors w ?g) = Some (stored (ToLower w) ini ?n)"
    using cs assms(8) by simp
  have nm: "name (stored (ToLower w) ini ?n) = ToLower w ?scheme"
    using assms(11) by (simp add: stored_def)
  have ks: "set (keys s) \<subseteq> set (writtenKeys (ToLower w) ?n (written ini))"
    using assms(9) sn by (auto simp add: writtenKeys_def)
  show ?thesis
    using ret rc' sel nm ks by simp
qed

theorem InitSetting_scheme_case_insensitive_witness:
  "KeyString (settingSection w1) ''current_theme'' \<noteq> []
   \<and> KeyString (settingSection w1) ''color_scheme'' = ''SchemeB''
   \<and> \<lparr>name = ''schemeb'', keys = [(''main_fg'', ''000000'')]\<rparr> \<in> set (written txt1)
   \<and> ToLower w1 ''schemeb'' = ToLower w1 ''SchemeB''
   \<and> 2 \<le> length (Sections (parse (ToLower w1) txt1))
   \<and> (\<exists>g'. InitSetting w1 initial = Returns () g' \<and> replaceColors g'
          \<and> colorSection g' = Some \<lparr>name = ''schemeb'', keys = [(''main_fg'', ''000000'')]\<rparr>)"
proof -
  let ?s = "\<lparr>name = ''schemeb'', keys = [(''main_fg'', ''000000'')]\<rparr>"
  have low: "asciiToLower ''schemeb'' = ''schemeb''" "asciiToLower ''SchemeB'' = ''schemeb''"
    by (simp_all add: asciiToLower_def lower_char_def)
  have len: "2 \<le> length (Sections (parse asciiToLower txt1))"
    by (simp add: txt1_facts cfg1_def Sections_def)
  have mem: "?s \<in> set (written txt1)"
    by (simp add: txt1_def)
  have "\<exists>g'. InitSetting w1 initial = Returns () g' \<and> replaceColors g'
          \<and> colorSection g' = Some (stored (ToLower w1) txt1 (ToLower w1 (name ?s)))
          \<and> name (stored (ToLower w1) txt1 (ToLower w1 (name ?s)))
                = ToLower w1 (KeyString (settingSection w1) ''color_scheme'')
          \<and> set (keys ?s) \<subseteq> set (writtenKeys (ToLower w1) (ToLower w1 (name ?s)) (written txt1))"
    by (rule InitSetting_scheme_case_insensitive
          [where ?g0.0 = initial and ?g1.0 = initial and folder = "''/u/Themes/Dark''"])
       (simp_all add: w1_facts txt1_facts low mem cfg1_def Sections_def)
  then have "\<exists>g'. InitSetting w1 initial = Returns () g' \<and> replaceColors g'
          \<and> colorSection g' = Some ?s"
    by (auto simp add: w1_facts txt1_facts low)
  then show ?thesis
    using len mem by (simp add: w1_facts low)
qed

subsection \<open>Recomputation\<close>

text \<open>
  Claim C8, as stated, fails: what a re-run leaves in the theme folder and in the color
  section can depend on the previously resolved value. In the world where
  \<^verbatim>\<open>color.ini\<close> has been removed, resolving from the state an earlier resolution left
  keeps the color section selected then, while resolving from the initial state leaves
  none.
\<close>

theorem InitSetting_history_counterexample:
  "InitSetting w1 initial = Returns () resolved1
   \<and> InitSetting w3 resolved1 = Returns () (resolved1\<lparr>replaceColors := False\<rparr>)
   \<and> InitSetting w3 initial =
        Returns () (initial\<lparr>themeFolder := ''/u/Themes/Dark'', injectCSS := True\<rparr>)
   \<and> colorSection (resolved1\<lparr>replaceColors := False\<rparr>)
        \<noteq> colorSection (initial\<lparr>themeFolder := ''/u/Themes/Dark'', injectCSS := True\<rparr>)"
  by (simp add: w3_def w1_def txt1_def cfg1_def resolved1_def eval_defs)

text \<open>
  Claim C8, amended. Resolution is idempotent: a second invocation in the same world
  returns the same three flags, theme folder and color section as the first (and if the
  first ends the process, so does any other). The three flags of a resolution depend
  only on the world; so does the theme folder when \<^verbatim>\<open>current_theme\<close> is not empty, and
  the color section when \<^verbatim>\<open>replaceColors\<close> resolves to true. Otherwise the theme
  folder and the color section keep the value they had before the call.
\<close>

theorem InitSetting_idempotent:
  "(InitSetting w g = Returns () g' \<longrightarrow>
      (\<exists>g''. InitSetting w g' = Returns () g'' \<and> settings g'' = settings g'))
   \<and> (InitSetting w g = Exits c g' \<longrightarrow> (\<exists>g2'. InitSetting w g2 = Exits c g2'))
   \<and> (InitSetting w g = Returns () g' \<and> InitSetting w g2 = Returns () g2' \<longrightarrow>
        replaceColors g' = replaceColors g2' \<and> injectCSS g' = injectCSS g2'
        \<and> overwriteAssets g' = overwriteAssets g2'
        \<and> (KeyString (settingSection w) ''current_theme'' \<noteq> [] \<longrightarrow> themeFolder g' = themeFolder g2')
        \<and> (replaceColors g' \<longrightarrow> colorSection g' = colorSection g2'))
   \<and> (InitSetting w g = Returns () g' \<and> \<not> replaceColors g' \<longrightarrow> colorSection g' = colorSection g)
   \<and> (InitSetting w g = Returns () g' \<and> KeyString (settingSection w) ''current_theme'' = []
        \<longrightarrow> themeFolder g' = themeFolder g)"
proof (cases "KeyString (settingSection w) ''current_theme'' = []")
  case True
  then have "InitSetting w x =
      Returns () (x\<lparr>injectCSS := False, replaceColors := False, overwriteAssets := False\<rparr>)" for x
    by (simp add: InitSetting_def)
  with True show ?thesis
    by (auto simp add: settings_def)
next
  case False
  show ?thesis
  proof (cases "getThemeFolder w (KeyString (settingSection w) ''current_theme'') g")
    case (Returns folder g1)
    have ret: "InitSetting w x = Returns () (loadColors w (afterChecks w folder x))" for x
      using False Returns by (rule InitSetting_returns)
    have idem: "settings (loadColors w (afterChecks w folder (loadColors w (afterChecks w folder g))))
                  = settings (loadColors w (afterChecks w folder g))"
      (is "settings ?g'' = settings ?g'")
    proof -
      have "colorSection ?g'' = colorSection ?g'"
      proof (cases "replaceColors ?g''")
        case True
        then show ?thesis by (rule resolve_same_section)
      next
        case False
        then show ?thesis by (rule resolve_keeps_section)
      qed
      then show ?thesis
        using resolve_same [of w folder ?g' g]
        by (simp add: settings_def resolve_folder)
    qed
    show ?thesis
      using False idem resolve_same [of w folder g g2] resolve_same_section [of w folder g g2]
        resolve_keeps_section [of w folder g]
      by (auto simp add: ret resolve_folder)
  next
    case (Exits c1 g1)
    obtain x where "InitSetting w g = Exits c1 x"
      using InitSetting_exits [OF False Exits] by blast
    moreover obtain y where "InitSetting w g2 = Exits c1 y"
      using InitSetting_exits [OF False Exits] by blast
    ultimately show ?thesis by auto
  qed
qed

theorem InitSetting_idempotent_witness:
  "InitSetting w1 initial = Returns () resolved1
   \<and> InitSetting w1 resolved1 = Returns () resolved1"
proof -
  have first: "InitSetting w1 initial = Returns () resolved1"
    by (rule InitSetting_w1)
  have second: "InitSetting w1 resolved1 = Returns () resolved1"
    by (simp add: w1_def txt1_def cfg1_def resolved1_def eval_defs)
  from InitSetting_idempotent [of w1 initial resolved1 1 resolved1 resolved1] first
  have "\<exists>g''. InitSetting w1 resolved1 = Returns () g'' \<and> settings g'' = settings resolved1"
    by blast
  with first second show ?thesis by simp
qed

subsection \<open>Watching extensions\<close>

text \<open>
  Claim C5. With the client in a moddable state, \<^verbatim>\<open>WatchExtensions\<close> resolves each
  configured name, prints a warning for each name that does not resolve and goes on
  with the others. It ends the process (with status 1) if and only if none of the names
  resolves; otherwise it enters the watcher with exactly the paths of the names that
  resolved, in order.
\<close>

theorem WatchExtensions_found_subset:
  assumes "isModdable w"
  shows "(\<exists>g'. WatchExtensions w liveUpdate g = Exits 1 g')
           = (\<forall>v \<in> set (extNameList w). getExtensionPath w v = None)
       \<and> (\<forall>c g'. WatchExtensions w liveUpdate g = Exits c g' \<longrightarrow> c = 1)
       \<and> ((\<exists>v \<in> set (extNameList w). getExtensionPath w v \<noteq> None) \<longrightarrow>
            (\<exists>g'. WatchExtensions w liveUpdate g =
                     Returns \<lparr>fileList = List.map_filter (getExtensionPath w) (extNameList w),
                              assetWatch = None\<rparr> g'
                 \<and> trace g' = trace (if liveUpdate then startDebugger w g else g)
                                @ notFound w (extNameList w)))"
proof -
  let ?g1 = "if liveUpdate then startDebugger w g else g"
  let ?g2 = "?g1\<lparr>trace := trace ?g1 @ notFound w (extNameList w)\<rparr>"
  let ?found = "List.map_filter (getExtensionPath w) (extNameList w)"
  have eq: "WatchExtensions w liveUpdate g =
          (if ?found = [] then Exits 1 (emit (PrintError ''No extension to watch.'') ?g2)
           else Returns \<lparr>fileList = ?found, assetWatch = None\<rparr> ?g2)"
    using assms
    by (simp add: WatchExtensions_def isValidForWatching_def resolveExtensions_eq Let_def)
  have nil: "(?found = []) = (\<forall>v \<in> set (extNameList w). getExtensionPath w v = None)"
    by (rule map_filter_Nil_iff)
  show ?thesis
  proof (cases "?found = []")
    case True
    then show ?thesis using eq nil by auto
  next
    case False
    then show ?thesis using eq nil by auto
  qed
qed

theorem WatchExtensions_found_subset_witness:
  "isModdable w1
   \<and> extNameList w1 = [''a.js'', ''b.js'']
   \<and> getExtensionPath w1 ''b.js'' = None
   \<and> (\<exists>g'. WatchExtensions w1 False initial =
               Returns \<lparr>fileList = [''/u/Extensions/a.js''], assetWatch = None\<rparr> g'
           \<and> trace g' = [PrintError (''Extension \"b.js\" not found.'')])"
  using WatchExtensions_found_subset [of w1 False initial]
  by (auto simp add: w1_def notFound_def List.map_filter_simps initial_trace)

subsection \<open>Reloading\<close>

text \<open>
  Claim C6. A failed reload attempt ends neither the process nor the watch loop. When
  \<^verbatim>\<open>utils.SendReload\<close> returns an error, the callback bound by \<^verbatim>\<open>startDebugger\<close>
  prints an error and a hint and returns, having changed nothing but the endpoint
  \<^verbatim>\<open>utils.SendReload\<close> stored; and the watcher, run with that callback on any sequence
  of change events whose reactions return, is still watching after the last of them and
  has made one fresh reload attempt per event, whatever the earlier attempts gave.
\<close>

theorem reload_failure_keeps_watching:
  assumes "\<forall>e \<in> set es. \<forall>g. \<exists>g'. onChange e g = Returns () g' \<and> attempts g' = attempts g"
  shows "(snd (SendReload a (debuggerURL g)) \<longrightarrow>
            autoReloadFunc a g =
              Returns () (g\<lparr>debuggerURL := fst (SendReload a (debuggerURL g)),
                trace := trace g @
                  [ReloadDirective (fst (SendReload a (debuggerURL g))),
                   PrintError ''Could not Reload Spotify'',
                   PrintInfo ''Close Spotify and run \"spicetify watch -e -l\" again.'']\<rparr>))
       \<and> (\<exists>g'. utilsWatch onChange True es g = Returns () g'
                \<and> attempts g' = attempts g + length es)
       \<and> autoReloadBound (startDebugger w g)"
proof (intro conjI impI)
  show "autoReloadFunc a g =
              Returns () (g\<lparr>debuggerURL := fst (SendReload a (debuggerURL g)),
                trace := trace g @
                  [ReloadDirective (fst (SendReload a (debuggerURL g))),
                   PrintError ''Could not Reload Spotify'',
                   PrintInfo ''Close Spotify and run \"spicetify watch -e -l\" again.'']\<rparr>)"
    if "snd (SendReload a (debuggerURL g))"
    using that by (rule autoReloadFunc_failed)
  show "\<exists>g'. utilsWatch onChange True es g = Returns () g'
                \<and> attempts g' = attempts g + length es"
    using assms by (rule utilsWatch_attempts)
  show "autoReloadBound (startDebugger w g)"
    by (simp add: startDebugger_def Let_def)
qed

theorem reload_failure_keeps_watching_witness:
  "snd (SendReload (reload ev1) (debuggerURL (startDebugger w1 initial)))
   \<and> utilsWatch extensionChanged True [ev1, ev2] (startDebugger w1 initial) =
       Returns () (initial\<lparr>debuggerURL := ''ws://localhost:9222/1'', autoReloadBound := True,
         trace := [RestartSpotify ''--remote-debugging-port=9222'',
                   PrintSuccess ''Extension \"/u/Extensions/a.js\" is updated.'',
                   ReloadDirective ''ws://localhost:9222/1'',
                   PrintError ''Could not Reload Spotify'',
                   PrintInfo ''Close Spotify and run \"spicetify watch -e -l\" again.'',
                   PrintSuccess ''Extension \"/u/Extensions/a.js\" is updated.'',
                   ReloadDirective ''ws://localhost:9222/1'',
                   PrintSuccess ''Spotify reloaded'']\<rparr>)
   \<and> (\<exists>g'. utilsWatch extensionChanged True [ev1, ev2] (startDebugger w1 initial) = Returns () g'
          \<and> attempts g' = attempts (startDebugger w1 initial) + 2)"
proof -
  have hyp: "\<forall>e \<in> set [ev1, ev2]. \<forall>g. \<exists>g'. extensionChanged e g = Returns () g'
               \<and> attempts g' = attempts g"
    by (simp add: extensionChanged_returns ev1_def ev2_def)
  have run: "utilsWatch extensionChanged True [ev1, ev2] (startDebugger w1 initial) =
       Returns () (initial\<lparr>debuggerURL := ''ws://localhost:9222/1'', autoReloadBound := True,
         trace := [RestartSpotify ''--remote-debugging-port=9222'',
                   PrintSuccess ''Extension \"/u/Extensions/a.js\" is updated.'',
                   ReloadDirective ''ws://localhost:9222/1'',
                   PrintError ''Could not Reload Spotify'',
                   PrintInfo ''Close Spotify and run \"spicetify watch -e -l\" again.'',
                   PrintSuccess ''Extension \"/u/Extensions/a.js\" is updated.'',
                   ReloadDirective ''ws://localhost:9222/1'',
                   PrintSuccess ''Spotify reloaded'']\<rparr>)"
    by (simp add: ev1_def ev2_def extensionChanged_def autoReloadFunc_def SendReload_def
          startDebugger_def w1_def initial_def emit_def Let_def)
  have fails: "snd (SendReload (reload ev1) (debuggerURL (startDebugger w1 initial)))"
    by (simp add: ev1_def SendReload_def startDebugger_def w1_def initial_def emit_def Let_def)
  show ?thesis
    using reload_failure_keeps_watching
            [of "[ev1, ev2]" extensionChanged "reload ev1" "startDebugger w1 initial" w1, OF hyp]
          run fails
    by simp
qed

subsection \<open>The root directory override\<close>

text \<open>
  Claim C7. When \<^verbatim>\<open>SPICETIFY_CONFIG\<close> is set to a non-empty value,
  \<^verbatim>\<open>getSpicetifyFolder\<close> returns that value unchanged, whatever the platform and the
  other variables are, and the directory exists when it returns: it is created if it
  was absent (the call returns whenever the directory exists or can be created).
\<close>

theorem getSpicetifyFolder_override:
  assumes "map_of (environ h) ''SPICETIFY_CONFIG'' = Some v" and "v \<noteq> []"
  shows "getSpicetifyFolder h dirs =
           (if v \<in> set dirs then Returns v dirs
            else if v \<in> set (creatable h) then Returns v (dirs @ [v])
            else Exits 1 dirs)
       \<and> (v \<in> set dirs \<or> v \<in> set (creatable h) \<longrightarrow>
            (\<exists>dirs'. getSpicetifyFolder h dirs = Returns v dirs' \<and> v \<in> set dirs'
                    \<and> set dirs \<subseteq> set dirs'))
       \<and> (\<forall>r dirs'. getSpicetifyFolder h dirs = Returns r dirs' \<longrightarrow> r = v \<and> v \<in> set dirs')"
  using assms
  by (auto simp add: getSpicetifyFolder_def LookupEnv_def CheckExistAndCreate_def Let_def)

theorem getSpicetifyFolder_override_witness:
  "map_of (environ h1) ''SPICETIFY_CONFIG'' = Some ''/cfg/spice'' \<and> ''/cfg/spice'' \<noteq> []
   \<and> getSpicetifyFolder h1 [] = Returns ''/cfg/spice'' [''/cfg/spice'']
   \<and> getSpicetifyFolder h1 [''/cfg/spice''] = Returns ''/cfg/spice'' [''/cfg/spice'']"
  using getSpicetifyFolder_override [of h1 "''/cfg/spice''" "[]"]
        getSpicetifyFolder_override [of h1 "''/cfg/spice''" "[''/cfg/spice'']"]
  by (simp add: h1_def)

end
